theory Spec2Isabelle
  imports Main "HOL-Library.Sublist" "HOL-Library.AList" "HOL-Library.Word"
begin

section \<open>github-runner-scaler: the fetch-aggregate-cache engine\<close>

text \<open>
  A shallow embedding of \<^verbatim>\<open>github-runner-scaler.go\<close>. Go strings are byte sequences and
  are modelled by \<open>string\<close>; a function returning \<^verbatim>\<open>(T, error)\<close> returns a pair whose
  second component is \<open>None\<close> for \<^verbatim>\<open>nil\<close>; the nil slice and the empty slice are both
  \<open>[]\<close>. Everything outside the process (the network, the clock, the environment
  variables) is a parameter of the model.
\<close>

subsection \<open>The string functions of the Go library used by the source\<close>

text \<open>
  \<^verbatim>\<open>strings.HasPrefix\<close>, \<^verbatim>\<open>strings.HasSuffix\<close> and \<^verbatim>\<open>strings.TrimSuffix\<close> as the library
  implements them, by length test and slicing. \<^verbatim>\<open>TrimSuffix\<close> removes the suffix once.
\<close>

definition HasPrefix :: "string \<Rightarrow> string \<Rightarrow> bool" where
  "HasPrefix s pre = (length pre \<le> length s \<and> take (length pre) s = pre)"

definition HasSuffix :: "string \<Rightarrow> string \<Rightarrow> bool" where
  "HasSuffix s suf = (length suf \<le> length s \<and> drop (length s - length suf) s = suf)"

definition TrimSuffix :: "string \<Rightarrow> string \<Rightarrow> string" where
  "TrimSuffix s suf = (if HasSuffix s suf then take (length s - length suf) s else s)"

subsection \<open>URL builder (lines 33-42)\<close>

text \<open>\<^verbatim>\<open>fmt.Sprintf("%s/%s", a, b)\<close> on two strings is the concatenation \<open>a @ ''/'' @ b\<close>.\<close>

definition buildAPIURL :: "string \<Rightarrow> string \<Rightarrow> string" where
  "buildAPIURL baseURL endpoint =
     (if HasPrefix baseURL ''https://api.github.com''
      then TrimSuffix baseURL ''/'' @ ''/'' @ endpoint
      else TrimSuffix baseURL ''/'' @ ''/api/v3/'' @ endpoint)"

subsection \<open>Data model (lines 15-30)\<close>

record Repo =
  FullName :: string

record WorkflowRun =
  Status :: string

text \<open>
  A Go \<^verbatim>\<open>error\<close> value, by where it comes from: \<^verbatim>\<open>http.NewRequest\<close>, \<^verbatim>\<open>client.Do\<close>,
  the \<^verbatim>\<open>fmt.Errorf\<close> calls of the source (with the message they build), reading or
  scanning a response body, and a JSON value that does not fit the Go type it is decoded
  into (with the kind of the JSON value).
\<close>

datatype error =
    RequestError string
  | TransportError string
  | UpstreamStatusError string
  | BodyError string
  | UnmarshalTypeError string

subsection \<open>HTTP requests and responses, and the world outside the process\<close>

record Request =
  Method :: string
  URL :: string
  Header :: "(string \<times> string) list"

datatype json =
    JNull
  | JBool bool
  | JNumber string
  | JString string
  | JArray "json list"
  | JObject "(string \<times> json) list"

text \<open>
  A response carries its status code, its status line (\<^verbatim>\<open>resp.Status\<close>) and its body. The
  byte-level scanner of \<^verbatim>\<open>encoding/json\<close> is not modelled: the body is the outcome of
  reading and scanning its first JSON value, either an error (I/O error, empty body,
  syntax error) or the value, with the object keys in the order of the text.
\<close>

record Response =
  StatusCode :: int
  RespStatus :: string
  Body :: "error + json"

text \<open>
  The environment of the process, over a type \<open>'w\<close> of states of the outside world:
  \<open>CheckURL\<close> is the URL validation of \<^verbatim>\<open>http.NewRequest\<close>, \<open>Do\<close> is
  \<^verbatim>\<open>http.Client.Do\<close> (it answers a request and moves the world on), \<open>Now\<close> is
  \<^verbatim>\<open>time.Now\<close> in nanoseconds (the zero \<^verbatim>\<open>time.Time\<close> is \<open>0\<close>), \<open>Getenv\<close> is
  \<^verbatim>\<open>os.Getenv\<close>.
\<close>

record 'w Env =
  CheckURL :: "string \<Rightarrow> error option"
  Do :: "Request \<Rightarrow> 'w \<Rightarrow> (error + Response) \<times> 'w"
  Now :: "'w \<Rightarrow> int"
  Getenv :: "string \<Rightarrow> string"

definition NewRequest :: "'w Env \<Rightarrow> string \<Rightarrow> string \<Rightarrow> error + Request" where
  "NewRequest env method url =
     (case CheckURL env url of
        Some err \<Rightarrow> Inl err
      | None \<Rightarrow> Inr \<lparr>Method = method, URL = url, Header = []\<rparr>)"

text \<open>
  \<^verbatim>\<open>req.Header.Set\<close> stores the value under the canonical form of the key:
  \<^verbatim>\<open>textproto.CanonicalMIMEHeaderKey\<close> leaves a key with a byte that is not a token
  character as it is, and otherwise makes the first letter and every letter after a
  hyphen upper case and every other letter lower case.
\<close>

definition validHeaderFieldByte :: "char \<Rightarrow> bool" where
  "validHeaderFieldByte c =
     (let n = (of_char c :: nat)
      in (48 \<le> n \<and> n \<le> 57) \<or> (65 \<le> n \<and> n \<le> 90) \<or> (97 \<le> n \<and> n \<le> 122) \<or>
         n \<in> set [33, 35, 36, 37, 38, 39, 42, 43, 45, 46, 94, 95, 96, 124, 126])"

fun canonicalLetters :: "bool \<Rightarrow> string \<Rightarrow> string" where
  "canonicalLetters upper [] = []"
| "canonicalLetters upper (c # cs) =
     (let n = (of_char c :: nat);
          c' = (if upper \<and> 97 \<le> n \<and> n \<le> 122 then char_of (n - 32)
                else if \<not> upper \<and> 65 \<le> n \<and> n \<le> 90 then char_of (n + 32)
                else c)
      in c' # canonicalLetters (c' = CHR ''-'') cs)"

definition CanonicalMIMEHeaderKey :: "string \<Rightarrow> string" where
  "CanonicalMIMEHeaderKey s =
     (if list_all validHeaderFieldByte s then canonicalLetters True s else s)"

definition HeaderSet :: "string \<Rightarrow> string \<Rightarrow> Request \<Rightarrow> Request" where
  "HeaderSet key val req =
     req\<lparr>Header := AList.update (CanonicalMIMEHeaderKey key) val (Header req)\<rparr>"

subsection \<open>Decoding JSON values into the Go types of the source\<close>

text \<open>
  \<^verbatim>\<open>encoding/json\<close> matches an object key to a struct field when the two are equal
  after case folding. For a field name made of ASCII characters, as all field names of
  the source are, a key matches exactly when every character of it is the letter of the
  name in either case, or the Kelvin sign (bytes E2 84 AA) for \<^verbatim>\<open>k\<close>, or the long s
  (bytes C5 BF) for \<^verbatim>\<open>s\<close>. \<open>foldName\<close> maps these to the upper-case ASCII letter and
  leaves every other byte of a multi-byte character in place, where it is equal to no
  ASCII character.
\<close>

definition foldByte :: "char \<Rightarrow> char" where
  "foldByte c =
     (let n = (of_char c :: nat)
      in if 97 \<le> n \<and> n \<le> 122 then char_of (n - 32) else c)"

fun foldName :: "string \<Rightarrow> string" where
  "foldName [] = []"
| "foldName (c # cs) =
     (if (of_char c :: nat) < 128 then foldByte c # foldName cs
      else if c = CHR 0xE2 \<and> take 2 cs = [CHR 0x84, CHR 0xAA]
        then CHR ''K'' # foldName (drop 2 cs)
      else if c = CHR 0xC5 \<and> take 1 cs = [CHR 0xBF]
        then CHR ''S'' # foldName (drop 1 cs)
      else c # foldName cs)"

definition matchesField :: "string \<Rightarrow> string \<Rightarrow> bool" where
  "matchesField name key = (foldName key = foldName name)"

text \<open>The kind of a JSON value, as \<^verbatim>\<open>UnmarshalTypeError\<close> reports it.\<close>

fun kindOf :: "json \<Rightarrow> string" where
  "kindOf JNull = ''null''"
| "kindOf (JBool b) = ''bool''"
| "kindOf (JNumber n) = ''number''"
| "kindOf (JString s) = ''string''"
| "kindOf (JArray vs) = ''array''"
| "kindOf (JObject kvs) = ''object''"

text \<open>
  A value that does not fit its target is skipped, the decoding goes on, and the
  earliest such error is returned at the end: \<open>saveError\<close> keeps the first error.
\<close>

definition saveError :: "error option \<Rightarrow> error option \<Rightarrow> error option" where
  "saveError saved err = (case saved of None \<Rightarrow> err | Some e \<Rightarrow> Some e)"

text \<open>Into a \<^verbatim>\<open>string\<close>: a JSON string is stored, \<^verbatim>\<open>null\<close> has no effect.\<close>

definition decodeString :: "json \<Rightarrow> string \<Rightarrow> string \<times> error option" where
  "decodeString v cur =
     (case v of
        JString s \<Rightarrow> (s, None)
      | JNull \<Rightarrow> (cur, None)
      | _ \<Rightarrow> (cur, Some (UnmarshalTypeError (kindOf v))))"

text \<open>
  Into a struct with one exported field called \<open>name\<close> in JSON: the pairs of the object
  are taken in order, a pair whose key matches is decoded into the field, any other
  pair is ignored; \<^verbatim>\<open>null\<close> has no effect.
\<close>

fun decodeFields ::
  "string \<Rightarrow> (json \<Rightarrow> 'a \<Rightarrow> 'a \<times> error option) \<Rightarrow> (string \<times> json) list \<Rightarrow>
     'a \<times> error option \<Rightarrow> 'a \<times> error option" where
  "decodeFields name dec [] st = st"
| "decodeFields name dec ((key, v) # kvs) (cur, saved) =
     (if matchesField name key
      then (case dec v cur of
              (cur', err) \<Rightarrow> decodeFields name dec kvs (cur', saveError saved err))
      else decodeFields name dec kvs (cur, saved))"

definition decodeObject ::
  "string \<Rightarrow> (json \<Rightarrow> 'a \<Rightarrow> 'a \<times> error option) \<Rightarrow> json \<Rightarrow> 'a \<Rightarrow> 'a \<times> error option" where
  "decodeObject name dec v cur =
     (case v of
        JObject kvs \<Rightarrow> decodeFields name dec kvs (cur, None)
      | JNull \<Rightarrow> (cur, None)
      | _ \<Rightarrow> (cur, Some (UnmarshalTypeError (kindOf v))))"

text \<open>
  A slice being decoded into is its memory and its length: \<open>(mem, n)\<close> has the
  elements \<open>take n mem\<close>, and \<open>mem\<close> may hold, beyond the length, elements that an
  earlier array for the same field left there. The \<^verbatim>\<open>nil\<close> slice is \<open>([], 0)\<close>.
\<close>

type_synonym 'a slice = "'a list \<times> nat"

definition elems :: "'a slice \<Rightarrow> 'a list" where
  "elems sl = take (snd sl) (fst sl)"

text \<open>
  Into a slice: the \<open>i\<close>-th value of an array is decoded into the element that the
  memory holds at \<open>i\<close>, or into the zero value of the element type where the memory
  ends, and the length becomes the number of values; an empty array gives a new empty
  slice; \<^verbatim>\<open>null\<close> sets the slice to \<^verbatim>\<open>nil\<close>.
\<close>

fun decodeElems ::
  "(json \<Rightarrow> 'a \<Rightarrow> 'a \<times> error option) \<Rightarrow> 'a \<Rightarrow> json list \<Rightarrow> 'a list \<Rightarrow>
     'a list \<times> error option" where
  "decodeElems dec zero [] mem = ([], None)"
| "decodeElems dec zero (v # vs) mem =
     (case dec v (case mem of [] \<Rightarrow> zero | x # rest \<Rightarrow> x) of
        (x, err) \<Rightarrow>
          (case decodeElems dec zero vs (drop 1 mem) of
             (xs, err') \<Rightarrow> (x # xs, saveError err err')))"

fun decodeSlice ::
  "(json \<Rightarrow> 'a \<Rightarrow> 'a \<times> error option) \<Rightarrow> 'a \<Rightarrow> json \<Rightarrow> 'a slice \<Rightarrow>
     'a slice \<times> error option" where
  "decodeSlice dec zero v (mem, n) =
     (case v of
        JArray vs \<Rightarrow>
          (case decodeElems dec zero vs mem of
             (xs, err) \<Rightarrow>
               (if vs = [] then ([], 0) else (xs @ drop (length xs) mem, length xs), err))
      | JNull \<Rightarrow> (([], 0), None)
      | _ \<Rightarrow> ((mem, n), Some (UnmarshalTypeError (kindOf v))))"

text \<open>The two structs of the source, with their \<^verbatim>\<open>json\<close> tags.\<close>

definition decodeRepo :: "json \<Rightarrow> Repo \<Rightarrow> Repo \<times> error option" where
  "decodeRepo =
     decodeObject ''full_name''
       (\<lambda>v r. case decodeString v (FullName r) of (s, err) \<Rightarrow> (r\<lparr>FullName := s\<rparr>, err))"

definition decodeWorkflowRun :: "json \<Rightarrow> WorkflowRun \<Rightarrow> WorkflowRun \<times> error option" where
  "decodeWorkflowRun =
     decodeObject ''status''
       (\<lambda>v r. case decodeString v (Status r) of (s, err) \<Rightarrow> (r\<lparr>Status := s\<rparr>, err))"

text \<open>
  \<^verbatim>\<open>json.NewDecoder(resp.Body).Decode(&x)\<close>: an error of reading or scanning the body is
  returned before anything is stored.
\<close>

definition Decode ::
  "(json \<Rightarrow> 'a \<Rightarrow> 'a \<times> error option) \<Rightarrow> error + json \<Rightarrow> 'a \<Rightarrow> 'a \<times> error option" where
  "Decode dec body cur =
     (case body of
        Inl err \<Rightarrow> (cur, Some err)
      | Inr v \<Rightarrow> dec v cur)"

subsection \<open>GitHub client (lines 44-108)\<close>

definition setHeaders :: "string \<Rightarrow> Request \<Rightarrow> Request" where
  "setHeaders token req =
     HeaderSet ''X-GitHub-Api-Version'' ''2022-11-28''
       (HeaderSet ''Accept'' ''application/vnd.github+json''
          (HeaderSet ''Authorization'' (''Bearer '' @ token) req))"

definition GetRepos ::
  "'w Env \<Rightarrow> string \<Rightarrow> string \<Rightarrow> string \<Rightarrow> 'w \<Rightarrow> (Repo list \<times> error option) \<times> 'w" where
  "GetRepos env githubURL org token w =
     (let url = buildAPIURL githubURL (''orgs/'' @ org @ ''/repos'')
      in case NewRequest env ''GET'' url of
           Inl err \<Rightarrow> (([], Some err), w)
         | Inr req \<Rightarrow>
             (case Do env (setHeaders token req) w of
                (Inl err, w') \<Rightarrow> (([], Some err), w')
              | (Inr resp, w') \<Rightarrow>
                  if StatusCode resp \<noteq> 200
                  then (([], Some (UpstreamStatusError
                          (''error fetching repos: '' @ RespStatus resp))), w')
                  else (case Decode (decodeSlice decodeRepo \<lparr>FullName = []\<rparr>) (Body resp)
                               ([], 0) of
                          (repos, Some err) \<Rightarrow> (([], Some err), w')
                        | (repos, None) \<Rightarrow> ((elems repos, None), w'))))"

text \<open>
  The anonymous struct of line 100 has the one field \<^verbatim>\<open>WorkflowRuns\<close>, tagged
  \<^verbatim>\<open>workflow_runs\<close>; its value is that field's slice.
\<close>

definition GetWorkflowRuns ::
  "'w Env \<Rightarrow> string \<Rightarrow> string \<Rightarrow> string \<Rightarrow> 'w \<Rightarrow> (WorkflowRun list \<times> error option) \<times> 'w" where
  "GetWorkflowRuns env githubURL repo token w =
     (let url = buildAPIURL githubURL (''repos/'' @ repo @ ''/actions/runs'')
      in case NewRequest env ''GET'' url of
           Inl err \<Rightarrow> (([], Some err), w)
         | Inr req \<Rightarrow>
             (case Do env (setHeaders token req) w of
                (Inl err, w') \<Rightarrow> (([], Some err), w')
              | (Inr resp, w') \<Rightarrow>
                  if StatusCode resp \<noteq> 200
                  then (([], Some (UpstreamStatusError
                          (''error fetching workflow runs: '' @ RespStatus resp))), w')
                  else (case Decode
                               (decodeObject ''workflow_runs''
                                  (decodeSlice decodeWorkflowRun \<lparr>Status = []\<rparr>))
                               (Body resp) ([], 0) of
                          (workflowRuns, Some err) \<Rightarrow> (([], Some err), w')
                        | (workflowRuns, None) \<Rightarrow> ((elems workflowRuns, None), w'))))"

subsection \<open>Aggregator (lines 110-133)\<close>

text \<open>
  The counter is a Go \<^verbatim>\<open>int\<close>, 64 bits wide where the image is built, incremented
  once for each queued run that a response carried. It cannot reach \<open>2 ^ 63\<close>, so it
  is modelled by an unbounded integer, without wrap-around.
\<close>

text \<open>The inner loop, lines 125-129, from the running total.\<close>

fun countRuns :: "WorkflowRun list \<Rightarrow> int \<Rightarrow> int" where
  "countRuns [] totalQueuedJobs = totalQueuedJobs"
| "countRuns (run # rest) totalQueuedJobs =
     countRuns rest
       (if Status run = ''queued'' then totalQueuedJobs + 1 else totalQueuedJobs)"

text \<open>The outer loop, lines 119-130, and its exit at line 132.\<close>

fun countRepos ::
  "'w Env \<Rightarrow> string \<Rightarrow> string \<Rightarrow> Repo list \<Rightarrow> int \<Rightarrow> 'w \<Rightarrow> (int \<times> error option) \<times> 'w" where
  "countRepos env githubURL token [] totalQueuedJobs w = ((totalQueuedJobs, None), w)"
| "countRepos env githubURL token (repo # rest) totalQueuedJobs w =
     (case GetWorkflowRuns env githubURL (FullName repo) token w of
        ((workflowRuns, Some err), w') \<Rightarrow> ((0, Some err), w')
      | ((workflowRuns, None), w') \<Rightarrow>
          countRepos env githubURL token rest (countRuns workflowRuns totalQueuedJobs) w')"

definition CountQueuedJobs ::
  "'w Env \<Rightarrow> string \<Rightarrow> string \<Rightarrow> string \<Rightarrow> 'w \<Rightarrow> (int \<times> error option) \<times> 'w" where
  "CountQueuedJobs env githubURL org token w =
     (case GetRepos env githubURL org token w of
        ((repos, Some err), w') \<Rightarrow> ((0, Some err), w')
      | ((repos, None), w') \<Rightarrow> countRepos env githubURL token repos 0 w')"

subsection \<open>TTL cache and request handler (lines 25-30 and 135-176)\<close>

text \<open>
  The three package variables of the cache. \<^verbatim>\<open>cacheTimeout\<close> is a \<^verbatim>\<open>time.Duration\<close>, a
  signed 64-bit count of nanoseconds, read with \<open>sint\<close>; \<^verbatim>\<open>lastUpdateTime\<close> is an
  instant in nanoseconds.
\<close>

record Cache =
  cachedJobs :: int
  lastUpdateTime :: int
  cacheTimeout :: "64 word"

definition minDuration :: int where
  "minDuration = - (2 ^ 63)"

definition maxDuration :: int where
  "maxDuration = 2 ^ 63 - 1"

text \<open>
  \<^verbatim>\<open>time.Time.Sub\<close> returns the difference of two instants as a \<^verbatim>\<open>time.Duration\<close>; a
  difference outside the range of the type becomes the nearest bound.
  \<^verbatim>\<open>time.Since(t)\<close> is \<^verbatim>\<open>time.Now().Sub(t)\<close>.
\<close>

definition Sub :: "int \<Rightarrow> int \<Rightarrow> int" where
  "Sub t u = max minDuration (min maxDuration (t - u))"

definition Since :: "'w Env \<Rightarrow> 'w \<Rightarrow> int \<Rightarrow> int" where
  "Since env w t = Sub (Now env w) t"

text \<open>
  What the handler writes: status 200 with the body \<^verbatim>\<open>{"queued_jobs": n}\<close>, or status
  500 with a text made from the error.
\<close>

datatype Reply =
    StatusOK int
  | StatusInternalServerError error

text \<open>
  The handler holds \<^verbatim>\<open>cacheLock\<close> from line 145 to its return, so one call is one step
  on the cache: it takes the cache and the world and returns the reply, the cache and
  the world after it.
\<close>

definition QueuedJobsHandler :: "'w Env \<Rightarrow> Cache \<Rightarrow> 'w \<Rightarrow> Reply \<times> Cache \<times> 'w" where
  "QueuedJobsHandler env c w =
     (let githubURL = Getenv env ''GITHUB_URL'';
          org = Getenv env ''GITHUB_ORGANIZATION'';
          token = Getenv env ''GITHUB_TOKEN'';
          githubURL = (if githubURL = [] then ''https://api.github.com'' else githubURL)
      in if Since env w (lastUpdateTime c) < sint (cacheTimeout c)
         then (StatusOK (cachedJobs c), c, w)
         else (case CountQueuedJobs env githubURL org token w of
                 ((queuedJobs, Some err), w') \<Rightarrow> (StatusInternalServerError err, c, w')
               | ((queuedJobs, None), w') \<Rightarrow>
                   (StatusOK queuedJobs,
                    c\<lparr>cachedJobs := queuedJobs, lastUpdateTime := Now env w'\<rparr>,
                    w')))"

text \<open>
  A sequence of calls of the handler, one after the other as the lock orders them; the
  world is in state \<open>ws ! i\<close> when the \<open>i\<close>-th call takes the lock. The result is the
  reply and the world after each call, and the cache after the last.
\<close>

fun serveAll :: "'w Env \<Rightarrow> Cache \<Rightarrow> 'w list \<Rightarrow> (Reply \<times> 'w) list \<times> Cache" where
  "serveAll env c [] = ([], c)"
| "serveAll env c (w # ws) =
     (case QueuedJobsHandler env c w of
        (reply, c', w') \<Rightarrow>
          (case serveAll env c' ws of
             (replies, c'') \<Rightarrow> ((reply, w') # replies, c'')))"

subsection \<open>The aggregation and the cache in the words of the specification\<close>

text \<open>
  \<open>listed env githubURL token repos w rss w'\<close>: asked for the workflow runs of each
  repository of \<open>repos\<close> in turn, from the world \<open>w\<close>, the client returns the lists
  \<open>rss\<close>, one for each repository and none with an error, and leaves the world \<open>w'\<close>.
\<close>

fun listed ::
  "'w Env \<Rightarrow> string \<Rightarrow> string \<Rightarrow> Repo list \<Rightarrow> 'w \<Rightarrow> WorkflowRun list list \<Rightarrow> 'w \<Rightarrow> bool" where
  "listed env githubURL token [] w [] w' = (w' = w)"
| "listed env githubURL token (repo # rest) w (rs # rss) w' =
     (case GetWorkflowRuns env githubURL (FullName repo) token w of
        ((rs', None), w1) \<Rightarrow> rs' = rs \<and> listed env githubURL token rest w1 rss w'
      | ((rs', Some err), w1) \<Rightarrow> False)"
| "listed env githubURL token [] w (rs # rss) w' = False"
| "listed env githubURL token (repo # rest) w [] w' = False"

text \<open>The number of runs of a list whose status is the string \<^verbatim>\<open>queued\<close>.\<close>

definition queuedIn :: "WorkflowRun list \<Rightarrow> nat" where
  "queuedIn rs = length (filter (\<lambda>run. Status run = ''queued'') rs)"

text \<open>
  The recomputation that the handler passes to the cache: the aggregation with the
  configuration read from the environment, the base URL defaulting to public GitHub.
\<close>

definition recompute :: "'w Env \<Rightarrow> 'w \<Rightarrow> (int \<times> error option) \<times> 'w" where
  "recompute env w =
     CountQueuedJobs env
       (if Getenv env ''GITHUB_URL'' = [] then ''https://api.github.com''
        else Getenv env ''GITHUB_URL'')
       (Getenv env ''GITHUB_ORGANIZATION'') (Getenv env ''GITHUB_TOKEN'') w"

text \<open>
  The number of calls of a sequence of calls that find the entry stale at line 149, and
  so run the recomputation.
\<close>

fun recomputations :: "'w Env \<Rightarrow> Cache \<Rightarrow> 'w list \<Rightarrow> nat" where
  "recomputations env c [] = 0"
| "recomputations env c (w # ws) =
     (if Since env w (lastUpdateTime c) < sint (cacheTimeout c) then 0 else 1) +
     recomputations env (fst (snd (QueuedJobsHandler env c w))) ws"

subsection \<open>A small upstream for the worked examples\<close>

text \<open>
  Organization \<^verbatim>\<open>acme\<close> has the repositories A, with runs queued and completed, and B,
  with two queued runs. Organization \<^verbatim>\<open>empty\<close> has none. Organization \<^verbatim>\<open>broken\<close> has
  A and C, and the runs of C answer with status 500. Organization \<^verbatim>\<open>bare\<close> has D,
  whose runs answer with an object without \<^verbatim>\<open>workflow_runs\<close>. The runs of a further
  repository E answer with an object that has the key \<^verbatim>\<open>Workflow_Runs\<close> with a
  number. Any other URL answers with status 404. The argument of \<open>demoEnv\<close> is the
  organization that the environment variables name. The world is the number of requests
  answered so far; the clock starts some 2025 years after the zero time, and each
  request takes one second.
\<close>

definition runJ :: "string \<Rightarrow> json" where
  "runJ st = JObject [(''id'', JNumber ''1''), (''status'', JString st)]"

definition repoJ :: "string \<Rightarrow> json" where
  "repoJ name = JObject [(''full_name'', JString name), (''private'', JBool False)]"

definition ok200 :: "json \<Rightarrow> error + Response" where
  "ok200 v = Inr \<lparr>StatusCode = 200, RespStatus = ''200 OK'', Body = Inr v\<rparr>"

definition upstream :: "string \<Rightarrow> error + Response" where
  "upstream url =
     (if url = ''https://api.github.com/orgs/acme/repos''
        then ok200 (JArray [repoJ ''acme/A'', repoJ ''acme/B''])
      else if url = ''https://api.github.com/repos/acme/A/actions/runs''
        then ok200 (JObject [(''total_count'', JNumber ''2''),
               (''workflow_runs'', JArray [runJ ''queued'', runJ ''completed''])])
      else if url = ''https://api.github.com/repos/acme/B/actions/runs''
        then ok200 (JObject [(''total_count'', JNumber ''2''),
               (''workflow_runs'', JArray [runJ ''queued'', runJ ''queued''])])
      else if url = ''https://api.github.com/orgs/empty/repos''
        then ok200 (JArray [])
      else if url = ''https://api.github.com/orgs/broken/repos''
        then ok200 (JArray [repoJ ''acme/A'', repoJ ''acme/C''])
      else if url = ''https://api.github.com/repos/acme/C/actions/runs''
        then Inr \<lparr>StatusCode = 500, RespStatus = ''500 Internal Server Error'',
               Body = Inr JNull\<rparr>
      else if url = ''https://api.github.com/orgs/bare/repos''
        then ok200 (JArray [repoJ ''acme/D''])
      else if url = ''https://api.github.com/repos/acme/D/actions/runs''
        then ok200 (JObject [(''total_count'', JNumber ''0'')])
      else if url = ''https://api.github.com/repos/acme/E/actions/runs''
        then ok200 (JObject [(''Workflow_Runs'', JNumber ''5'')])
      else Inr \<lparr>StatusCode = 404, RespStatus = ''404 Not Found'', Body = Inr JNull\<rparr>)"

definition demoEnv :: "string \<Rightarrow> nat Env" where
  "demoEnv org =
     \<lparr>CheckURL = (\<lambda>url. None),
      Do = (\<lambda>req w. (upstream (URL req), Suc w)),
      Now = (\<lambda>w. 63900000000000000000 + 1000000000 * int w),
      Getenv = (\<lambda>name. if name = ''GITHUB_ORGANIZATION'' then org
                        else if name = ''GITHUB_TOKEN'' then ''secret'' else [])\<rparr>"

definition demoCache :: Cache where
  "demoCache = \<lparr>cachedJobs = 0, lastUpdateTime = 0, cacheTimeout = 60000000000\<rparr>"

subsection \<open>The URL rule in the words of the specification\<close>

text \<open>
  The specification's \<open>trimTrailingSlash\<close>, read as the removal of one trailing
  \<^verbatim>\<open>/\<close>, and its reading as the removal of every trailing \<^verbatim>\<open>/\<close>. Neither is used by
  the model of the code; the theorems below compare the code with them.
\<close>

definition trimTrailingSlash :: "string \<Rightarrow> string" where
  "trimTrailingSlash s = (if s \<noteq> [] \<and> last s = CHR ''/'' then butlast s else s)"

definition trimAllTrailingSlashes :: "string \<Rightarrow> string" where
  "trimAllTrailingSlashes s = rev (dropWhile (\<lambda>c. c = CHR ''/'') (rev s))"

section \<open>Properties\<close>

subsection \<open>Library functions against their list-level meaning\<close>

lemma HasPrefix_iff_prefix: "HasPrefix s pre \<longleftrightarrow> prefix pre s"
proof
  assume "HasPrefix s pre"
  then have "take (length pre) s = pre" by (simp add: HasPrefix_def)
  then have "s = pre @ drop (length pre) s" by (metis append_take_drop_id)
  then show "prefix pre s" by (metis prefixI)
next
  assume "prefix pre s"
  then obtain zs where "s = pre @ zs" by (auto elim: prefixE)
  then show "HasPrefix s pre" by (simp add: HasPrefix_def)
qed

lemma HasSuffix_slash: "HasSuffix s ''/'' \<longleftrightarrow> s \<noteq> [] \<and> last s = CHR ''/''"
proof (cases s rule: rev_cases)
  case Nil
  then show ?thesis by (simp add: HasSuffix_def)
next
  case (snoc ys y)
  then show ?thesis by (auto simp: HasSuffix_def)
qed

lemma TrimSuffix_slash: "TrimSuffix s ''/'' = trimTrailingSlash s"
proof (cases s rule: rev_cases)
  case Nil
  then show ?thesis by (simp add: TrimSuffix_def trimTrailingSlash_def HasSuffix_def)
next
  case (snoc ys y)
  then show ?thesis
    by (simp add: TrimSuffix_def trimTrailingSlash_def HasSuffix_slash)
qed

lemma TrimSuffix_snoc_slash: "TrimSuffix (b @ ''/'') ''/'' = b"
  by (simp add: TrimSuffix_slash trimTrailingSlash_def)

subsection \<open>URL builder\<close>

text \<open>
  C6. For every base URL and endpoint path: if the base URL starts with
  \<^verbatim>\<open>https://api.github.com\<close>, the result of \<open>buildAPIURL\<close> is the base URL with its
  trailing slash trimmed, then \<^verbatim>\<open>/\<close>, then the endpoint path; otherwise it is the trimmed
  base URL, then \<^verbatim>\<open>/api/v3/\<close>, then the endpoint path. Here "starts with" is the list
  prefix order and the trimming removes one trailing slash, which is what
  \<^verbatim>\<open>strings.TrimSuffix\<close> does. The function has no error case: it is a total function
  from two strings to a string.
\<close>

theorem buildAPIURL_spec:
  "buildAPIURL baseURL endpointPath =
     (if prefix ''https://api.github.com'' baseURL
      then trimTrailingSlash baseURL @ ''/'' @ endpointPath
      else trimTrailingSlash baseURL @ ''/api/v3/'' @ endpointPath)"
  by (simp add: buildAPIURL_def HasPrefix_iff_prefix TrimSuffix_slash)

theorem buildAPIURL_spec_witness:
  "buildAPIURL ''https://api.github.com'' ''orgs/acme/repos'' =
     ''https://api.github.com/orgs/acme/repos'' \<and>
   buildAPIURL ''https://ghe.example.com/'' ''orgs/acme/repos'' =
     ''https://ghe.example.com/api/v3/orgs/acme/repos''"
  using buildAPIURL_spec [of "''https://api.github.com''" "''orgs/acme/repos''"]
    buildAPIURL_spec [of "''https://ghe.example.com/''" "''orgs/acme/repos''"]
  by (simp add: trimTrailingSlash_def)

text \<open>
  C7, as stated, fails: a base URL ending in two slashes keeps one of them, and the
  result has a doubled slash where the base URL and the separator meet.
\<close>

theorem buildAPIURL_two_slashes_counterexample:
  "buildAPIURL ''https://ghe.example.com//'' ''orgs/acme/repos'' =
     ''https://ghe.example.com//api/v3/orgs/acme/repos'' \<and>
   buildAPIURL ''https://ghe.example.com//'' ''orgs/acme/repos'' \<noteq>
     trimAllTrailingSlashes ''https://ghe.example.com//'' @ ''/api/v3/'' @ ''orgs/acme/repos''"
  by (simp add: buildAPIURL_def HasPrefix_def TrimSuffix_def HasSuffix_def
      trimAllTrailingSlashes_def)

text \<open>
  C7, amended. For every base URL ending in \<^verbatim>\<open>/\<close>, \<open>buildAPIURL\<close> removes exactly
  one trailing slash before it appends the separator and the endpoint path: for a base
  URL \<open>b @ ''/''\<close> the result is \<open>b\<close>, the separator, the endpoint path. So there is no
  doubled slash at the join when the base URL ends in exactly one slash.
\<close>

theorem buildAPIURL_strips_one_slash:
  "buildAPIURL (b @ ''/'') endpointPath =
     b @ (if prefix ''https://api.github.com'' (b @ ''/'') then ''/'' else ''/api/v3/'')
       @ endpointPath"
  by (simp add: buildAPIURL_def HasPrefix_iff_prefix TrimSuffix_snoc_slash)

subsection \<open>Aggregator\<close>

lemma countRuns_queuedIn: "countRuns rs acc = acc + int (queuedIn rs)"
  by (induction rs arbitrary: acc) (simp_all add: queuedIn_def)

lemma countRepos_listed:
  "listed env githubURL token repos w rss w' \<Longrightarrow>
   countRepos env githubURL token repos acc w =
     ((acc + int (sum_list (map queuedIn rss)), None), w')"
proof (induction repos arbitrary: w rss acc)
  case Nil
  then show ?case by (cases rss) simp_all
next
  case (Cons repo rest)
  then obtain rs rss' where rss: "rss = rs # rss'" by (cases rss) auto
  obtain out w1 where g: "GetWorkflowRuns env githubURL (FullName repo) token w = (out, w1)"
    by (cases "GetWorkflowRuns env githubURL (FullName repo) token w")
  obtain rs' e where out: "out = (rs', e)" by (cases out)
  from Cons.prems rss g out have e: "e = None" and rs: "rs' = rs"
    and rest: "listed env githubURL token rest w1 rss' w'"
    by (auto split: option.splits)
  show ?case
    using Cons.IH [OF rest, of "countRuns rs acc"] g out e rs rss
    by (simp add: countRuns_queuedIn)
qed

lemma countRepos_error_zero:
  "countRepos env githubURL token repos acc w = ((n, Some err), w') \<Longrightarrow> n = 0"
proof (induction repos arbitrary: acc w)
  case Nil
  then show ?case by simp
next
  case (Cons repo rest)
  obtain rs e w1 where g: "GetWorkflowRuns env githubURL (FullName repo) token w = ((rs, e), w1)"
    by (metis surj_pair)
  show ?case
  proof (cases e)
    case None
    with Cons.prems g
    have "countRepos env githubURL token rest (countRuns rs acc) w1 = ((n, Some err), w')"
      by simp
    then show ?thesis by (rule Cons.IH)
  next
    case (Some e')
    with Cons.prems g show ?thesis by simp
  qed
qed

lemma countRepos_abort:
  assumes "listed env githubURL token pre w rss w2"
    and "GetWorkflowRuns env githubURL (FullName repo) token w2 = ((rs, Some err), w3)"
  shows "countRepos env githubURL token (pre @ repo # post) acc w = ((0, Some err), w3)"
  using assms
proof (induction pre arbitrary: w rss acc)
  case Nil
  then show ?case by (cases rss) simp_all
next
  case (Cons p pre)
  then obtain r rss' where rss: "rss = r # rss'" by (cases rss) auto
  obtain rs' e w1 where g: "GetWorkflowRuns env githubURL (FullName p) token w = ((rs', e), w1)"
    by (metis surj_pair)
  from Cons.prems(1) rss g have e: "e = None"
    and rest: "listed env githubURL token pre w1 rss' w2"
    by (auto split: option.splits)
  show ?case
    using Cons.IH [OF rest Cons.prems(2), of "countRuns rs' acc"] g e
    by simp
qed

text \<open>
  C1. Whatever list of repositories \<open>GetRepos\<close> returns and whatever lists of workflow
  runs \<open>GetWorkflowRuns\<close> returns for them, one after the other, \<open>CountQueuedJobs\<close>
  returns without error the number of runs, summed over the repositories, whose status
  is exactly the string \<^verbatim>\<open>queued\<close>. The example has A with runs queued and completed
  and B with two queued runs, and the count 3; an organization without repositories has
  the count 0 and no error.
\<close>

theorem CountQueuedJobs_total:
  assumes "GetRepos env githubURL org token w = ((repos, None), w1)"
    and "listed env githubURL token repos w1 rss w2"
  shows "CountQueuedJobs env githubURL org token w =
           ((int (sum_list (map queuedIn rss)), None), w2)"
  using assms countRepos_listed [of env githubURL token repos w1 rss w2 0]
  by (simp add: CountQueuedJobs_def)

theorem CountQueuedJobs_total_witness:
  "CountQueuedJobs (demoEnv ''acme'') ''https://api.github.com'' ''acme'' ''secret'' 0 =
     ((3, None), 3) \<and>
   CountQueuedJobs (demoEnv ''acme'') ''https://api.github.com'' ''empty'' ''secret'' 0 =
     ((0, None), 1)"
proof -
  have r: "GetRepos (demoEnv ''acme'') ''https://api.github.com'' ''acme'' ''secret'' 0 =
      (([\<lparr>FullName = ''acme/A''\<rparr>, \<lparr>FullName = ''acme/B''\<rparr>], None), 1)"
    by code_simp
  have l: "listed (demoEnv ''acme'') ''https://api.github.com'' ''secret''
      [\<lparr>FullName = ''acme/A''\<rparr>, \<lparr>FullName = ''acme/B''\<rparr>] 1
      [[\<lparr>Status = ''queued''\<rparr>, \<lparr>Status = ''completed''\<rparr>],
       [\<lparr>Status = ''queued''\<rparr>, \<lparr>Status = ''queued''\<rparr>]] 3"
    by code_simp
  have r0: "GetRepos (demoEnv ''acme'') ''https://api.github.com'' ''empty'' ''secret'' 0 =
      (([], None), 1)"
    by code_simp
  have l0: "listed (demoEnv ''acme'') ''https://api.github.com'' ''secret'' [] 1 [] 1"
    by simp
  show ?thesis
    using CountQueuedJobs_total [OF r l] CountQueuedJobs_total [OF r0 l0]
    by (simp add: queuedIn_def)
qed

text \<open>
  C5. An error of \<open>GetRepos\<close> is the result of \<open>CountQueuedJobs\<close>, with the count 0.
  If \<open>GetWorkflowRuns\<close> fails for the repository at some position of the list, after
  it succeeded for all the repositories before it, then \<open>CountQueuedJobs\<close> returns that
  error with the count 0, whatever the earlier repositories had queued, and it asks for
  no repository after the failing one: the world is left as the failing call left it.
\<close>

theorem CountQueuedJobs_aborts:
  "(GetRepos env githubURL org token w = ((rps, Some err), w1) \<longrightarrow>
      CountQueuedJobs env githubURL org token w = ((0, Some err), w1)) \<and>
   (GetRepos env githubURL org token w = ((pre @ repo # post, None), w1) \<and>
    listed env githubURL token pre w1 rss w2 \<and>
    GetWorkflowRuns env githubURL (FullName repo) token w2 = ((rs, Some err), w3) \<longrightarrow>
      CountQueuedJobs env githubURL org token w = ((0, Some err), w3))"
  by (auto simp: CountQueuedJobs_def countRepos_abort)

theorem CountQueuedJobs_aborts_witness:
  "CountQueuedJobs (demoEnv ''acme'') ''https://api.github.com'' ''broken'' ''secret'' 0 =
     ((0, Some (UpstreamStatusError
         ''error fetching workflow runs: 500 Internal Server Error'')), 3) \<and>
   CountQueuedJobs (demoEnv ''acme'') ''https://api.github.com'' ''nobody'' ''secret'' 0 =
     ((0, Some (UpstreamStatusError ''error fetching repos: 404 Not Found'')), 1)"
proof -
  have r: "GetRepos (demoEnv ''acme'') ''https://api.github.com'' ''broken'' ''secret'' 0 =
      (([\<lparr>FullName = ''acme/A''\<rparr>] @ \<lparr>FullName = ''acme/C''\<rparr> # [], None), 1)"
    by code_simp
  have l: "listed (demoEnv ''acme'') ''https://api.github.com'' ''secret''
      [\<lparr>FullName = ''acme/A''\<rparr>] 1
      [[\<lparr>Status = ''queued''\<rparr>, \<lparr>Status = ''completed''\<rparr>]] 2"
    by code_simp
  have g: "GetWorkflowRuns (demoEnv ''acme'') ''https://api.github.com''
      (FullName \<lparr>FullName = ''acme/C''\<rparr>) ''secret'' 2 =
      (([], Some (UpstreamStatusError
         ''error fetching workflow runs: 500 Internal Server Error'')), 3)"
    by code_simp
  have r0: "GetRepos (demoEnv ''acme'') ''https://api.github.com'' ''nobody'' ''secret'' 0 =
      (([], Some (UpstreamStatusError ''error fetching repos: 404 Not Found'')), 1)"
    by code_simp
  from CountQueuedJobs_aborts [THEN conjunct2, THEN mp, OF conjI [OF r conjI [OF l g]]]
  have a: "CountQueuedJobs (demoEnv ''acme'') ''https://api.github.com'' ''broken'' ''secret'' 0 =
     ((0, Some (UpstreamStatusError
         ''error fetching workflow runs: 500 Internal Server Error'')), 3)" .
  from CountQueuedJobs_aborts [THEN conjunct1, THEN mp, OF r0]
  have b: "CountQueuedJobs (demoEnv ''acme'') ''https://api.github.com'' ''nobody'' ''secret'' 0 =
     ((0, Some (UpstreamStatusError ''error fetching repos: 404 Not Found'')), 1)" .
  from a b show ?thesis by (rule conjI)
qed

text \<open>
  C9. Whenever \<open>CountQueuedJobs\<close> returns an error, the integer it returns with it
  is 0.
\<close>

theorem CountQueuedJobs_error_zero:
  "CountQueuedJobs env githubURL org token w = ((n, Some err), w') \<Longrightarrow> n = 0"
  by (auto simp: CountQueuedJobs_def split: prod.splits option.splits
      dest: countRepos_error_zero)

theorem CountQueuedJobs_error_zero_witness:
  "snd (fst (CountQueuedJobs (demoEnv ''acme'') ''https://api.github.com'' ''broken''
      ''secret'' 0)) =
     Some (UpstreamStatusError ''error fetching workflow runs: 500 Internal Server Error'') \<and>
   fst (fst (CountQueuedJobs (demoEnv ''acme'') ''https://api.github.com'' ''broken''
      ''secret'' 0)) = 0"
proof -
  have c: "CountQueuedJobs (demoEnv ''acme'') ''https://api.github.com'' ''broken'' ''secret'' 0 =
      ((fst (fst (CountQueuedJobs (demoEnv ''acme'') ''https://api.github.com'' ''broken''
           ''secret'' 0)),
        Some (UpstreamStatusError ''error fetching workflow runs: 500 Internal Server Error'')),
       3)"
    by code_simp
  have e: "snd (fst (CountQueuedJobs (demoEnv ''acme'') ''https://api.github.com'' ''broken''
      ''secret'' 0)) =
     Some (UpstreamStatusError ''error fetching workflow runs: 500 Internal Server Error'')"
    by code_simp
  from e CountQueuedJobs_error_zero [OF c] show ?thesis by (rule conjI)
qed

subsection \<open>GitHub client\<close>

lemma decodeFields_no_match:
  "\<forall>(key, v) \<in> set kvs. matchesField name key \<longrightarrow> v = JNull \<Longrightarrow>
   (\<And>cur. dec JNull cur = (([], 0), None)) \<Longrightarrow>
   cur = ([], 0) \<Longrightarrow>
   decodeFields name dec kvs (cur, saved) = (([], 0), saved)"
proof (induction kvs arbitrary: cur saved)
  case Nil
  then show ?case by simp
next
  case (Cons kv kvs)
  obtain key v where kv: "kv = (key, v)" by (cases kv)
  show ?case
  proof (cases "matchesField name key")
    case True
    with Cons.prems(1) kv have "v = JNull" by simp
    with True kv Cons show ?thesis by (simp add: saveError_def split: option.splits)
  next
    case False
    with kv Cons show ?thesis by simp
  qed
qed

text \<open>
  C10, as stated, fails. The decoder matches keys to fields up to letter case: a body
  that is a JSON object without the key \<^verbatim>\<open>workflow_runs\<close> but with the key
  \<^verbatim>\<open>Workflow_Runs\<close> and a number for it is answered with status 200, and
  \<open>GetWorkflowRuns\<close> returns the decoding error.
\<close>

theorem GetWorkflowRuns_folded_key_counterexample:
  "Do (demoEnv ''acme'') (setHeaders ''secret''
      \<lparr>Method = ''GET'', URL = ''https://api.github.com/repos/acme/E/actions/runs'',
       Header = []\<rparr>) 0 =
     (Inr \<lparr>StatusCode = 200, RespStatus = ''200 OK'',
           Body = Inr (JObject [(''Workflow_Runs'', JNumber ''5'')])\<rparr>, 1) \<and>
   map_of [(''Workflow_Runs'', JNumber ''5'')] ''workflow_runs'' = None \<and>
   GetWorkflowRuns (demoEnv ''acme'') ''https://api.github.com'' ''acme/E'' ''secret'' 0 =
     (([], Some (UnmarshalTypeError ''number'')), 1)"
  by code_simp

text \<open>
  C10, amended. For every response with status 200 whose body is a JSON object in which
  every key that the decoder matches to \<^verbatim>\<open>workflow_runs\<close> (the key up to letter case)
  has the value \<^verbatim>\<open>null\<close>, and so for every such object with no such key at all,
  \<open>GetWorkflowRuns\<close> succeeds and returns the empty sequence of runs; in the aggregation
  the repository leaves the running count as it was.
\<close>

theorem GetWorkflowRuns_without_runs:
  assumes "CheckURL env (buildAPIURL githubURL (''repos/'' @ repo @ ''/actions/runs'')) = None"
    and "Do env (setHeaders token
           \<lparr>Method = ''GET'',
            URL = buildAPIURL githubURL (''repos/'' @ repo @ ''/actions/runs''),
            Header = []\<rparr>) w = (Inr resp, w')"
    and "StatusCode resp = 200"
    and "Body resp = Inr (JObject kvs)"
    and "\<forall>(key, v) \<in> set kvs. matchesField ''workflow_runs'' key \<longrightarrow> v = JNull"
  shows "GetWorkflowRuns env githubURL repo token w = (([], None), w') \<and>
         countRepos env githubURL token (\<lparr>FullName = repo\<rparr> # rest) acc w =
           countRepos env githubURL token rest acc w'"
proof -
  have "decodeFields ''workflow_runs'' (decodeSlice decodeWorkflowRun \<lparr>Status = []\<rparr>) kvs
          (([], 0), None) = (([], 0), None)"
    using assms(5) by (rule decodeFields_no_match) (auto split: prod.splits)
  then have "GetWorkflowRuns env githubURL repo token w = (([], None), w')"
    using assms(1-4)
    by (simp add: GetWorkflowRuns_def NewRequest_def Decode_def decodeObject_def elems_def)
  then show ?thesis by simp
qed

theorem GetWorkflowRuns_without_runs_witness:
  "GetWorkflowRuns (demoEnv ''bare'') ''https://api.github.com'' ''acme/D'' ''secret'' 1 =
     (([], None), 2) \<and>
   CountQueuedJobs (demoEnv ''bare'') ''https://api.github.com'' ''bare'' ''secret'' 0 =
     ((0, None), 2)"
proof -
  have u: "CheckURL (demoEnv ''bare'')
      (buildAPIURL ''https://api.github.com'' (''repos/'' @ ''acme/D'' @ ''/actions/runs'')) = None"
    by (simp add: demoEnv_def)
  have d: "Do (demoEnv ''bare'') (setHeaders ''secret''
           \<lparr>Method = ''GET'',
            URL = buildAPIURL ''https://api.github.com'' (''repos/'' @ ''acme/D'' @ ''/actions/runs''),
            Header = []\<rparr>) 1 =
       (Inr \<lparr>StatusCode = 200, RespStatus = ''200 OK'',
             Body = Inr (JObject [(''total_count'', JNumber ''0'')])\<rparr>, 2)"
    by code_simp
  have k: "\<forall>(key, v) \<in> set [(''total_count'', JNumber ''0'')].
      matchesField ''workflow_runs'' key \<longrightarrow> v = JNull"
    by code_simp
  have r: "GetRepos (demoEnv ''bare'') ''https://api.github.com'' ''bare'' ''secret'' 0 =
      (([\<lparr>FullName = ''acme/D''\<rparr>], None), 1)"
    by code_simp
  from GetWorkflowRuns_without_runs [OF u d _ _ k, of "[]" 0]
  have g: "GetWorkflowRuns (demoEnv ''bare'') ''https://api.github.com'' ''acme/D'' ''secret'' 1 =
       (([], None), 2)"
    and c: "countRepos (demoEnv ''bare'') ''https://api.github.com'' ''secret''
       [\<lparr>FullName = ''acme/D''\<rparr>] 0 1 =
     countRepos (demoEnv ''bare'') ''https://api.github.com'' ''secret'' [] 0 2"
    by simp_all
  from g c r show ?thesis by (simp add: CountQueuedJobs_def)
qed

subsection \<open>TTL cache\<close>

lemma sint_le_maxDuration: "sint (x :: 64 word) \<le> maxDuration"
  using sint_lt [of x] by (simp add: maxDuration_def)

lemma Sub_stale: "d \<le> maxDuration \<Longrightarrow> d \<le> t - u \<Longrightarrow> d \<le> Sub t u"
  by (simp add: Sub_def max_def min_def)

lemma Sub_fresh: "u \<le> t \<Longrightarrow> t - u < d \<Longrightarrow> Sub t u < d"
  by (simp add: Sub_def max_def min_def minDuration_def)

lemma handler_fresh:
  "lastUpdateTime c \<le> Now env w \<Longrightarrow> Now env w - lastUpdateTime c < sint (cacheTimeout c) \<Longrightarrow>
   QueuedJobsHandler env c w = (StatusOK (cachedJobs c), c, w)"
  by (simp add: QueuedJobsHandler_def Since_def Sub_fresh)

lemma handler_stale:
  assumes "sint (cacheTimeout c) \<le> Now env w - lastUpdateTime c"
  shows "QueuedJobsHandler env c w =
     (case recompute env w of
        ((n, Some err), w') \<Rightarrow> (StatusInternalServerError err, c, w')
      | ((n, None), w') \<Rightarrow>
          (StatusOK n, c\<lparr>cachedJobs := n, lastUpdateTime := Now env w'\<rparr>, w'))"
proof -
  have "\<not> Since env w (lastUpdateTime c) < sint (cacheTimeout c)"
    using Sub_stale [OF sint_le_maxDuration assms] by (simp add: Since_def)
  then show ?thesis
    by (simp add: QueuedJobsHandler_def recompute_def Let_def)
qed

text \<open>
  C2. For every cache, when a call of the handler finds the entry stale and the
  recomputation fails, the call replies with that error and leaves the cache as it
  was, \<open>cachedJobs\<close> and \<open>lastUpdateTime\<close> included; a next call, at a time that is
  not earlier, finds the entry stale again, and its reply and the cache after it are
  those of a new recomputation.
\<close>

theorem failed_recompute_keeps_cache:
  assumes "sint (cacheTimeout c) \<le> Now env w - lastUpdateTime c"
    and "recompute env w = ((n, Some err), w')"
    and "Now env w \<le> Now env w2"
  shows "QueuedJobsHandler env c w = (StatusInternalServerError err, c, w') \<and>
         QueuedJobsHandler env c w2 =
           (case recompute env w2 of
              ((n2, Some err2), w3) \<Rightarrow> (StatusInternalServerError err2, c, w3)
            | ((n2, None), w3) \<Rightarrow>
                (StatusOK n2, c\<lparr>cachedJobs := n2, lastUpdateTime := Now env w3\<rparr>, w3))"
proof
  show "QueuedJobsHandler env c w = (StatusInternalServerError err, c, w')"
    using handler_stale [OF assms(1)] assms(2) by simp
  from assms(1,3) have "sint (cacheTimeout c) \<le> Now env w2 - lastUpdateTime c"
    by simp
  then show "QueuedJobsHandler env c w2 =
           (case recompute env w2 of
              ((n2, Some err2), w3) \<Rightarrow> (StatusInternalServerError err2, c, w3)
            | ((n2, None), w3) \<Rightarrow>
                (StatusOK n2, c\<lparr>cachedJobs := n2, lastUpdateTime := Now env w3\<rparr>, w3))"
    by (rule handler_stale)
qed

theorem failed_recompute_keeps_cache_witness:
  "QueuedJobsHandler (demoEnv ''broken'') demoCache 0 =
     (StatusInternalServerError
        (UpstreamStatusError ''error fetching workflow runs: 500 Internal Server Error''),
      demoCache, 3) \<and>
   QueuedJobsHandler (demoEnv ''broken'') demoCache 5 =
     (StatusInternalServerError
        (UpstreamStatusError ''error fetching workflow runs: 500 Internal Server Error''),
      demoCache, 8)"
proof -
  have s: "sint (cacheTimeout demoCache) \<le>
      Now (demoEnv ''broken'') 0 - lastUpdateTime demoCache"
    by (simp add: demoCache_def demoEnv_def)
  have f: "recompute (demoEnv ''broken'') 0 =
      ((0, Some (UpstreamStatusError
          ''error fetching workflow runs: 500 Internal Server Error'')), 3)"
    by code_simp
  have l: "Now (demoEnv ''broken'') 0 \<le> Now (demoEnv ''broken'') 5"
    by (simp add: demoEnv_def)
  have f2: "recompute (demoEnv ''broken'') 5 =
      ((0, Some (UpstreamStatusError
          ''error fetching workflow runs: 500 Internal Server Error'')), 8)"
    by code_simp
  from failed_recompute_keeps_cache [OF s f l] f2 show ?thesis by simp
qed

text \<open>
  C3. A call of the handler made while the entry is fresh, that is at a time not before
  \<open>lastUpdateTime\<close> and less than \<open>cacheTimeout\<close> after it, replies with the stored
  count and leaves the cache and the world as they were: no request goes upstream. So
  every call of a sequence of calls that all fall in that interval replies with the same
  count, and none recomputes.
\<close>

theorem fresh_serves_cache:
  "\<forall>w \<in> set ws. lastUpdateTime c \<le> Now env w \<and>
      Now env w - lastUpdateTime c < sint (cacheTimeout c) \<Longrightarrow>
   serveAll env c ws = (map (\<lambda>w. (StatusOK (cachedJobs c), w)) ws, c)"
  by (induction ws) (simp_all add: handler_fresh)
theorem fresh_serves_cache_witness:
  "serveAll (demoEnv ''acme'') demoCache [0, 10, 20, 62] =
     ([(StatusOK 3, 3), (StatusOK 3, 10), (StatusOK 3, 20), (StatusOK 3, 62)],
      demoCache\<lparr>cachedJobs := 3, lastUpdateTime := 63900000003000000000\<rparr>)"
proof -
  have first: "QueuedJobsHandler (demoEnv ''acme'') demoCache 0 =
      (StatusOK 3, demoCache\<lparr>cachedJobs := 3, lastUpdateTime := 63900000003000000000\<rparr>, 3)"
    by code_simp
  have fresh: "\<forall>w \<in> set [10, 20, 62].
      lastUpdateTime (demoCache\<lparr>cachedJobs := 3, lastUpdateTime := 63900000003000000000\<rparr>)
        \<le> Now (demoEnv ''acme'') w \<and>
      Now (demoEnv ''acme'') w -
        lastUpdateTime (demoCache\<lparr>cachedJobs := 3, lastUpdateTime := 63900000003000000000\<rparr>)
        < sint (cacheTimeout
            (demoCache\<lparr>cachedJobs := 3, lastUpdateTime := 63900000003000000000\<rparr>))"
    by (simp add: demoCache_def demoEnv_def)
  from fresh_serves_cache [OF fresh] first show ?thesis by simp
qed

text \<open>
  C4. A call of the handler made while the entry is stale, that is at a time at least
  \<open>cacheTimeout\<close> after \<open>lastUpdateTime\<close>, the instant
  \<open>lastUpdateTime + cacheTimeout\<close> itself included, runs the recomputation: the world
  after the call is the world after the recomputation. If the recomputation succeeds, the
  call stores the new count, sets \<open>lastUpdateTime\<close> to the time read after the
  recomputation, and replies with the new count.
\<close>

theorem stale_recomputes:
  assumes "sint (cacheTimeout c) \<le> Now env w - lastUpdateTime c"
  shows "snd (snd (QueuedJobsHandler env c w)) = snd (recompute env w) \<and>
         (recompute env w = ((n, None), w') \<longrightarrow>
            QueuedJobsHandler env c w =
              (StatusOK n, c\<lparr>cachedJobs := n, lastUpdateTime := Now env w'\<rparr>, w'))"
  using handler_stale [OF assms] by (auto split: prod.splits option.splits)

theorem stale_recomputes_witness:
  "QueuedJobsHandler (demoEnv ''acme'')
     \<lparr>cachedJobs = 7, lastUpdateTime = 63899999940000000000, cacheTimeout = 60000000000\<rparr> 0 =
   (StatusOK 3,
    \<lparr>cachedJobs = 3, lastUpdateTime = 63900000003000000000, cacheTimeout = 60000000000\<rparr>, 3)"
proof -
  have s: "sint (cacheTimeout
        \<lparr>cachedJobs = 7, lastUpdateTime = 63899999940000000000, cacheTimeout = 60000000000\<rparr>) \<le>
      Now (demoEnv ''acme'') 0 - lastUpdateTime
        \<lparr>cachedJobs = 7, lastUpdateTime = 63899999940000000000, cacheTimeout = 60000000000\<rparr>"
    by (simp add: demoEnv_def)
  have r: "recompute (demoEnv ''acme'') 0 = ((3, None), 3)"
    by code_simp
  from stale_recomputes [OF s, THEN conjunct2, THEN mp, OF r]
  show ?thesis by (simp add: demoEnv_def)
qed

subsection \<open>Calls on a stale entry, in the order of the lock\<close>

lemma serveAll_fresh:
  "\<forall>v \<in> set ws. lastUpdateTime c \<le> Now env v \<and>
      Now env v - lastUpdateTime c < sint (cacheTimeout c) \<Longrightarrow>
   serveAll env c ws = (map (\<lambda>v. (StatusOK (cachedJobs c), v)) ws, c)"
  by (induction ws) (simp_all add: handler_fresh)

lemma recomputations_fresh:
  "\<forall>v \<in> set ws. lastUpdateTime c \<le> Now env v \<and>
      Now env v - lastUpdateTime c < sint (cacheTimeout c) \<Longrightarrow>
   recomputations env c ws = 0"
  by (induction ws) (simp_all add: handler_fresh Since_def Sub_fresh)

text \<open>Single calls on the example upstream, evaluated.\<close>

lemma broken_call_at_0:
  "QueuedJobsHandler (demoEnv ''broken'') demoCache 0 =
     (StatusInternalServerError
        (UpstreamStatusError ''error fetching workflow runs: 500 Internal Server Error''),
      demoCache, 3)"
  by code_simp

lemma broken_call_at_3:
  "QueuedJobsHandler (demoEnv ''broken'') demoCache 3 =
     (StatusInternalServerError
        (UpstreamStatusError ''error fetching workflow runs: 500 Internal Server Error''),
      demoCache, 6)"
  by code_simp

lemma broken_call_at_6:
  "QueuedJobsHandler (demoEnv ''broken'') demoCache 6 =
     (StatusInternalServerError
        (UpstreamStatusError ''error fetching workflow runs: 500 Internal Server Error''),
      demoCache, 9)"
  by code_simp

lemma zero_ttl_call_at_0:
  "QueuedJobsHandler (demoEnv ''acme'') (demoCache\<lparr>cacheTimeout := 0\<rparr>) 0 =
     (StatusOK 3,
      \<lparr>cachedJobs = 3, lastUpdateTime = 63900000003000000000, cacheTimeout = 0\<rparr>, 3)"
  by code_simp

lemma zero_ttl_call_at_3:
  "QueuedJobsHandler (demoEnv ''acme'')
     \<lparr>cachedJobs = 3, lastUpdateTime = 63900000003000000000, cacheTimeout = 0\<rparr> 3 =
     (StatusOK 3,
      \<lparr>cachedJobs = 3, lastUpdateTime = 63900000006000000000, cacheTimeout = 0\<rparr>, 6)"
  by code_simp

lemma zero_ttl_call_at_6:
  "QueuedJobsHandler (demoEnv ''acme'')
     \<lparr>cachedJobs = 3, lastUpdateTime = 63900000006000000000, cacheTimeout = 0\<rparr> 6 =
     (StatusOK 3,
      \<lparr>cachedJobs = 3, lastUpdateTime = 63900000009000000000, cacheTimeout = 0\<rparr>, 9)"
  by code_simp

text \<open>
  C8, as stated, fails. The callers that wait for the lock on a stale entry are served
  one after the other, and each of them recomputes when it still finds the entry stale.
  After a failed recomputation it does: three callers, each taking the lock when the one
  before releases it, make three recomputations and get three errors. With
  \<^verbatim>\<open>cacheTimeout = 0\<close> it does even after a success: three callers make three
  recomputations.
\<close>

theorem single_flight_counterexample:
  "recomputations (demoEnv ''broken'') demoCache [0, 3, 6] = 3 \<and>
   serveAll (demoEnv ''broken'') demoCache [0, 3, 6] =
     ([(StatusInternalServerError
          (UpstreamStatusError ''error fetching workflow runs: 500 Internal Server Error''), 3),
       (StatusInternalServerError
          (UpstreamStatusError ''error fetching workflow runs: 500 Internal Server Error''), 6),
       (StatusInternalServerError
          (UpstreamStatusError ''error fetching workflow runs: 500 Internal Server Error''), 9)],
      demoCache) \<and>
   recomputations (demoEnv ''acme'') (demoCache\<lparr>cacheTimeout := 0\<rparr>) [0, 3, 6] = 3 \<and>
   serveAll (demoEnv ''acme'') (demoCache\<lparr>cacheTimeout := 0\<rparr>) [0, 3, 6] =
     ([(StatusOK 3, 3), (StatusOK 3, 6), (StatusOK 3, 9)],
      \<lparr>cachedJobs = 3, lastUpdateTime = 63900000009000000000, cacheTimeout = 0\<rparr>)"
proof -
  let ?c0 = "demoCache\<lparr>cacheTimeout := 0\<rparr>"
  let ?c1 = "\<lparr>cachedJobs = 3, lastUpdateTime = 63900000003000000000, cacheTimeout = 0\<rparr>"
  let ?c2 = "\<lparr>cachedJobs = 3, lastUpdateTime = 63900000006000000000, cacheTimeout = 0\<rparr>"
  have bs: "\<not> Since (demoEnv ''broken'') w (lastUpdateTime demoCache)
      < sint (cacheTimeout demoCache)" for w
    by (simp add: Since_def Sub_def demoEnv_def demoCache_def minDuration_def maxDuration_def)
  have as0: "\<not> Since (demoEnv ''acme'') 0 (lastUpdateTime ?c0) < sint (cacheTimeout ?c0)"
    by (simp add: Since_def Sub_def demoEnv_def demoCache_def minDuration_def maxDuration_def)
  have as3: "\<not> Since (demoEnv ''acme'') 3 (lastUpdateTime ?c1) < sint (cacheTimeout ?c1)"
    by (simp add: Since_def Sub_def demoEnv_def minDuration_def maxDuration_def)
  have as6: "\<not> Since (demoEnv ''acme'') 6 (lastUpdateTime ?c2) < sint (cacheTimeout ?c2)"
    by (simp add: Since_def Sub_def demoEnv_def minDuration_def maxDuration_def)
  show ?thesis
    using bs as0 as3 as6
    by (simp add: broken_call_at_0 broken_call_at_3 broken_call_at_6
        zero_ttl_call_at_0 zero_ttl_call_at_3 zero_ttl_call_at_6)
qed

text \<open>
  C8, amended. Callers of the handler on the same stale entry are served one after the
  other, in the order in which they take the lock. The first runs the recomputation.
  If that succeeds, and every later caller takes the lock at a time not before the new
  \<open>lastUpdateTime\<close> and less than \<open>cacheTimeout\<close> after it, then every later caller
  gets the count of that one recomputation and makes no upstream request: exactly one
  recomputation is made for all of them.
\<close>

theorem single_flight_in_lock_order:
  assumes "sint (cacheTimeout c) \<le> Now env w - lastUpdateTime c"
    and "recompute env w = ((n, None), w')"
    and "\<forall>v \<in> set ws. Now env w' \<le> Now env v \<and>
           Now env v - Now env w' < sint (cacheTimeout c)"
  shows "serveAll env c (w # ws) =
           ((StatusOK n, w') # map (\<lambda>v. (StatusOK n, v)) ws,
            c\<lparr>cachedJobs := n, lastUpdateTime := Now env w'\<rparr>) \<and>
         recomputations env c (w # ws) = 1"
proof -
  let ?c = "c\<lparr>cachedJobs := n, lastUpdateTime := Now env w'\<rparr>"
  have first: "QueuedJobsHandler env c w = (StatusOK n, ?c, w')"
    using handler_stale [OF assms(1)] assms(2) by simp
  have stale: "\<not> Since env w (lastUpdateTime c) < sint (cacheTimeout c)"
    using Sub_stale [OF sint_le_maxDuration assms(1)] by (simp add: Since_def)
  have fresh: "\<forall>v \<in> set ws. lastUpdateTime ?c \<le> Now env v \<and>
      Now env v - lastUpdateTime ?c < sint (cacheTimeout ?c)"
    using assms(3) by simp
  have rest: "serveAll env ?c ws = (map (\<lambda>v. (StatusOK (cachedJobs ?c), v)) ws, ?c)"
    using fresh by (rule serveAll_fresh)
  have none: "recomputations env ?c ws = 0"
    using fresh by (rule recomputations_fresh)
  from first rest none stale show ?thesis by simp
qed

theorem single_flight_in_lock_order_witness:
  "serveAll (demoEnv ''acme'') demoCache [0, 3, 3, 10] =
     ([(StatusOK 3, 3), (StatusOK 3, 3), (StatusOK 3, 3), (StatusOK 3, 10)],
      demoCache\<lparr>cachedJobs := 3, lastUpdateTime := 63900000003000000000\<rparr>) \<and>
   recomputations (demoEnv ''acme'') demoCache [0, 3, 3, 10] = 1"
proof -
  have s: "sint (cacheTimeout demoCache) \<le>
      Now (demoEnv ''acme'') 0 - lastUpdateTime demoCache"
    by (simp add: demoCache_def demoEnv_def)
  have r: "recompute (demoEnv ''acme'') 0 = ((3, None), 3)"
    by code_simp
  have f: "\<forall>v \<in> set [3, 3, 10]. Now (demoEnv ''acme'') 3 \<le> Now (demoEnv ''acme'') v \<and>
      Now (demoEnv ''acme'') v - Now (demoEnv ''acme'') 3 < sint (cacheTimeout demoCache)"
    by (simp add: demoCache_def demoEnv_def)
  from single_flight_in_lock_order [OF s r f] show ?thesis by (simp add: demoEnv_def)
qed

end
